theory Spec2Isabelle
  imports Main "HOL-Library.Sublist" "HOL-Library.Multiset"
    "HOL-Library.Word" "HOL-Library.List_Lexorder"
begin

section \<open>The catalog data\<close>

text \<open>
  The data layer \<^verbatim>\<open>CaspianData\<close> (src/women/js/home.js, lines 295-652) works on three
  JSON catalogs.  A string is a sequence of UTF-16 code units, as in the engine; \<open>utf16\<close>
  writes one from its Basic Latin characters.
\<close>

type_synonym code_unit = "16 word"

type_synonym jstring = "code_unit list"

definition utf16 :: "string \<Rightarrow> jstring" where
  "utf16 s = map (\<lambda>c. of_nat (of_char c)) s"

text \<open>
  A product is a JSON object; the fields the data layer reads are kept
  here with the types the code uses them at: \<^verbatim>\<open>active === 1\<close> and
  \<^verbatim>\<open>featured === 1\<close> compare numbers; \<^verbatim>\<open>publish_at\<close>, \<^verbatim>\<open>sub_category\<close> and
  \<^verbatim>\<open>tags\<close> are tested for presence before use and may be absent (\<open>None\<close>);
  \<^verbatim>\<open>name\<close>, \<^verbatim>\<open>description\<close> and \<^verbatim>\<open>category\<close> are used as strings without a
  test, and \<^verbatim>\<open>tags\<close> as an array of strings.  The field \<^verbatim>\<open>id\<close> of a product is
  \<open>product_id\<close> here and the field \<^verbatim>\<open>id\<close> of a category is \<open>cat_id\<close>.  The home
  configuration is kept as a JSON value, with whole numbers.
\<close>

record product =
  product_id :: jstring
  name :: jstring
  description :: jstring
  category :: jstring
  sub_category :: "jstring option"
  tags :: "jstring list option"
  active :: int
  featured :: int
  publish_at :: "jstring option"
  added_date :: jstring

record category_config =
  cat_id :: jstring
  label :: jstring

datatype json =
  JNull | JBool bool | JNum int | JStr jstring | JArr "json list" | JObj "(jstring \<times> json) list"

section \<open>The environment of a call\<close>

text \<open>
  What a call reads from the browser: the clock (\<^verbatim>\<open>new Date().getTime()\<close>, in
  milliseconds), the time zone of the browser (\<^verbatim>\<open>getTimezoneOffset()\<close>, in minutes),
  the date parser behind \<^verbatim>\<open>new Date(string)\<close> (\<open>None\<close> is the Invalid Date, whose
  time value is NaN), the case conversion behind \<^verbatim>\<open>toLowerCase\<close>, and the order in which \<^verbatim>\<open>sort(() => 0.5 - Math.random())\<close>
  leaves an array.  The constructor \<^verbatim>\<open>new Date(string)\<close> never throws.  A view reads
  the clock once for each product it tests; a call is synchronous, and all its readings
  are the one value \<open>now\<close>.  Clock readings are far from the ends of the range of
  \<^verbatim>\<open>Date\<close>, so the shifted time of \<^verbatim>\<open>getCurrentIST\<close> is a valid date.
\<close>

record env =
  now :: int
  timezoneOffset :: int
  parseDate :: "jstring \<Rightarrow> int option"
  lowerCase :: "jstring \<Rightarrow> jstring"
  shuffle :: "product list \<Rightarrow> product list"

section \<open>Strings\<close>

text \<open>
  \<^verbatim>\<open>String.prototype.toLowerCase\<close> converts a string with the case mappings of
  Unicode, which depend on the neighbours of a character (the final sigma) and may
  change the length of the string.  The conversion of the engine is \<open>lowerCase\<close> of the
  environment; the empty string has nothing to convert.
\<close>

definition toLowerCase :: "env \<Rightarrow> jstring \<Rightarrow> jstring" where
  "toLowerCase e s = (if s = [] then [] else lowerCase e s)"

text \<open>\<^verbatim>\<open>String.prototype.trim\<close> removes white space and line terminators at both ends:
  TAB, LF, VT, FF, CR, the byte order mark and the space separators of Unicode, and the
  line and paragraph separators.\<close>

definition is_space :: "code_unit \<Rightarrow> bool" where
  "is_space c =
     (c \<in> {0x9, 0xA, 0xB, 0xC, 0xD, 0x20, 0xA0, 0x1680, 0x2028, 0x2029, 0x202F, 0x205F,
            0x3000, 0xFEFF} \<or> (0x2000 \<le> c \<and> c \<le> 0x200A))"

definition trim :: "jstring \<Rightarrow> jstring" where
  "trim s = rev (dropWhile is_space (rev (dropWhile is_space s)))"

text \<open>\<^verbatim>\<open>s.includes(t)\<close>: \<open>t\<close> occurs in \<open>s\<close> at some position.\<close>

fun str_includes :: "jstring \<Rightarrow> jstring \<Rightarrow> bool" where
  "str_includes [] t = (t = [])"
| "str_includes (c # s) t = (prefix t (c # s) \<or> str_includes s t)"

section \<open>Scheduled publishing\<close>

text \<open>\<^verbatim>\<open>getCurrentIST\<close> (lines 308-315): the time value of the Date it returns,
  \<^verbatim>\<open>now.getTime() + now.getTimezoneOffset() * 60000 + 5.5 * 60 * 60 * 1000\<close>.\<close>

definition getCurrentIST :: "env \<Rightarrow> int" where
  "getCurrentIST e =
     (let istOffset = 19800000;
          utcTime = now e + timezoneOffset e * 60000
      in utcTime + istOffset)"

text \<open>
  \<^verbatim>\<open>new Date(string)\<close> gives a date with the time value the parser finds, or the
  Invalid Date (\<open>None\<close>).  It does not throw for any string.
\<close>

datatype js_error = Thrown

definition new_Date :: "env \<Rightarrow> jstring \<Rightarrow> js_error + int option" where
  "new_Date e s = Inr (parseDate e s)"

text \<open>\<^verbatim>\<open>a >= b\<close> on two dates compares their time values, and is false when one of
  them is NaN.\<close>

definition date_ge :: "int option \<Rightarrow> int option \<Rightarrow> bool" where
  "date_ge a b = (case (a, b) of (Some x, Some y) \<Rightarrow> x \<ge> y | _ \<Rightarrow> False)"

text \<open>
  \<^verbatim>\<open>isProductPublished\<close> (lines 322-336).  \<^verbatim>\<open>!product.publish_at\<close> holds for an
  absent field and for the empty string.  The \<^verbatim>\<open>catch\<close> branch, which returns true,
  is the case \<open>Inl\<close> of the \<^verbatim>\<open>try\<close> block.
\<close>

definition isProductPublished :: "env \<Rightarrow> product \<Rightarrow> bool" where
  "isProductPublished e p =
     (case publish_at p of
        None \<Rightarrow> True
      | Some s \<Rightarrow>
          if s = [] then True
          else (case new_Date e s of
                  Inr publishTime \<Rightarrow> date_ge (Some (getCurrentIST e)) publishTime
                | Inl error \<Rightarrow> True))"

section \<open>The module state and its arrays\<close>

text \<open>
  \<^verbatim>\<open>Array.prototype.sort\<close> works in place, so arrays of products live in a store and
  are passed by address; \<^verbatim>\<open>filter\<close> and \<^verbatim>\<open>slice\<close> allocate a new array.  The state
  holds the closure variables of the module (lines 299-302), the store, and the log of
  the URLs requested with \<^verbatim>\<open>fetch\<close>.
\<close>

type_synonym addr = nat

record cstate =
  heap :: "product list list"
  productsData :: addr
  categoriesData :: "category_config list"
  homeData :: json
  dataLoaded :: bool
  fetched :: "string list"

definition init_state :: cstate where
  "init_state = \<lparr> heap = [[]], productsData = 0, categoriesData = [], homeData = JNull,
                   dataLoaded = False, fetched = [] \<rparr>"

definition deref :: "cstate \<Rightarrow> addr \<Rightarrow> product list" where
  "deref s a = heap s ! a"

definition alloc :: "product list \<Rightarrow> cstate \<Rightarrow> addr \<times> cstate" where
  "alloc xs s = (length (heap s), s\<lparr>heap := heap s @ [xs]\<rparr>)"

text \<open>The contents of the array a call returned, read in the state the call left.\<close>

definition returned :: "addr \<times> cstate \<Rightarrow> product list" where
  "returned r = deref (snd r) (fst r)"

definition arr_filter :: "(product \<Rightarrow> bool) \<Rightarrow> addr \<Rightarrow> cstate \<Rightarrow> addr \<times> cstate" where
  "arr_filter P a s = alloc (filter P (deref s a)) s"

text \<open>
  \<^verbatim>\<open>Array.prototype.slice(start, end)\<close>: a negative index counts from the end of
  the array, and both indices are clamped to the array.
\<close>

definition rel_index :: "int \<Rightarrow> nat \<Rightarrow> nat" where
  "rel_index i len = (if i < 0 then nat (max (int len + i) 0) else min (nat i) len)"

definition js_slice :: "'a list \<Rightarrow> int \<Rightarrow> int \<Rightarrow> 'a list" where
  "js_slice xs start stop =
     (let k = rel_index start (length xs); final = rel_index stop (length xs)
      in take (final - k) (drop k xs))"

definition arr_slice :: "addr \<Rightarrow> int \<Rightarrow> int \<Rightarrow> cstate \<Rightarrow> addr \<times> cstate" where
  "arr_slice a start stop s = alloc (js_slice (deref s a) start stop) s"

text \<open>
  \<^verbatim>\<open>Array.prototype.sort(comparefn)\<close>.  The comparator returns a number or NaN
  (\<open>None\<close>), and the sort reads NaN as \<open>+0\<close>.  The sort is stable; with a consistent
  comparator every conforming engine gives the order of this insertion sort, and with
  an inconsistent one the order is left to the engine, of which this is one.
\<close>

definition sort_compare :: "('a \<Rightarrow> 'a \<Rightarrow> int option) \<Rightarrow> 'a \<Rightarrow> 'a \<Rightarrow> int" where
  "sort_compare comparefn x y = (case comparefn x y of None \<Rightarrow> 0 | Some v \<Rightarrow> v)"

fun insert_by :: "('a \<Rightarrow> 'a \<Rightarrow> int option) \<Rightarrow> 'a \<Rightarrow> 'a list \<Rightarrow> 'a list" where
  "insert_by comparefn x [] = [x]"
| "insert_by comparefn x (y # ys) =
     (if sort_compare comparefn x y \<le> 0 then x # y # ys
      else y # insert_by comparefn x ys)"

definition js_sort :: "('a \<Rightarrow> 'a \<Rightarrow> int option) \<Rightarrow> 'a list \<Rightarrow> 'a list" where
  "js_sort comparefn xs = foldr (insert_by comparefn) xs []"

definition arr_sort ::
  "(product \<Rightarrow> product \<Rightarrow> int option) \<Rightarrow> addr \<Rightarrow> cstate \<Rightarrow> addr \<times> cstate" where
  "arr_sort comparefn a s = (a, s\<lparr>heap := (heap s)[a := js_sort comparefn (deref s a)]\<rparr>)"

text \<open>\<^verbatim>\<open>sort(() => 0.5 - Math.random())\<close>: in place, in the order the environment
  gives.\<close>

definition arr_shuffle :: "env \<Rightarrow> addr \<Rightarrow> cstate \<Rightarrow> addr \<times> cstate" where
  "arr_shuffle e a s = (a, s\<lparr>heap := (heap s)[a := shuffle e (deref s a)]\<rparr>)"

text \<open>A \<^verbatim>\<open>Set\<close> keeps its values in insertion order, each once.\<close>

definition set_add :: "'a \<Rightarrow> 'a list \<Rightarrow> 'a list" where
  "set_add x xs = (if x \<in> set xs then xs else xs @ [x])"

section \<open>The views\<close>

text \<open>\<^verbatim>\<open>getAllActiveProducts\<close> (lines 373-377).\<close>

definition getAllActiveProducts :: "env \<Rightarrow> cstate \<Rightarrow> addr \<times> cstate" where
  "getAllActiveProducts e s =
     arr_filter (\<lambda>product. active product = 1 \<and> isProductPublished e product)
       (productsData s) s"

text \<open>\<^verbatim>\<open>getProductById\<close> (lines 384-395); \<^verbatim>\<open>find\<close> gives the first product with
  the id, and \<open>None\<close> is \<^verbatim>\<open>null\<close>.\<close>

definition getProductById :: "env \<Rightarrow> jstring \<Rightarrow> cstate \<Rightarrow> product option" where
  "getProductById e i s =
     (case find (\<lambda>p. product_id p = i) (deref s (productsData s)) of
        None \<Rightarrow> None
      | Some product \<Rightarrow>
          if active product \<noteq> 1 \<or> \<not> isProductPublished e product then None
          else Some product)"

text \<open>\<^verbatim>\<open>getProductsByCategory\<close> (lines 403-413).  The limit is \<open>None\<close> when the
  argument is omitted or \<^verbatim>\<open>null\<close>; \<^verbatim>\<open>if (limit)\<close> holds for a number other than 0.\<close>

definition getProductsByCategory ::
  "env \<Rightarrow> jstring \<Rightarrow> int option \<Rightarrow> cstate \<Rightarrow> addr \<times> cstate" where
  "getProductsByCategory e c limit s =
     (let (active_arr, s1) = getAllActiveProducts e s;
          (products, s2) = arr_filter (\<lambda>p. category p = c) active_arr s1
      in case limit of
           None \<Rightarrow> (products, s2)
         | Some n \<Rightarrow> if n \<noteq> 0 then arr_slice products 0 n s2 else (products, s2))"

text \<open>\<^verbatim>\<open>getRecentlyAddedProducts\<close> (lines 420-431).  The comparator is
  \<^verbatim>\<open>dateB - dateA\<close>, NaN when one of the two dates is invalid; the limit is \<open>None\<close>
  when the argument is omitted, and then 6.\<close>

definition byAddedDate :: "env \<Rightarrow> product \<Rightarrow> product \<Rightarrow> int option" where
  "byAddedDate e a b =
     (case (parseDate e (added_date a), parseDate e (added_date b)) of
        (Some dateA, Some dateB) \<Rightarrow> Some (dateB - dateA)
      | _ \<Rightarrow> None)"

definition getRecentlyAddedProducts :: "env \<Rightarrow> int option \<Rightarrow> cstate \<Rightarrow> addr \<times> cstate" where
  "getRecentlyAddedProducts e limit s =
     (let (activeProducts, s1) = getAllActiveProducts e s;
          (sorted_arr, s2) = arr_sort (byAddedDate e) activeProducts s1
      in arr_slice sorted_arr 0 (case limit of None \<Rightarrow> 6 | Some n \<Rightarrow> n) s2)"

text \<open>\<^verbatim>\<open>getFeaturedProducts\<close> (lines 437-439).\<close>

definition getFeaturedProducts :: "env \<Rightarrow> cstate \<Rightarrow> addr \<times> cstate" where
  "getFeaturedProducts e s =
     (let (active_arr, s1) = getAllActiveProducts e s
      in arr_filter (\<lambda>p. featured p = 1) active_arr s1)"

text \<open>\<^verbatim>\<open>getCategoryConfig\<close> (lines 446-448).\<close>

definition getCategoryConfig :: "jstring \<Rightarrow> cstate \<Rightarrow> category_config option" where
  "getCategoryConfig categoryId s = find (\<lambda>cat. cat_id cat = categoryId) (categoriesData s)"

text \<open>\<^verbatim>\<open>getAllCategories\<close> (lines 454-461); the result is a new array of category
  entries.\<close>

definition getAllCategories :: "env \<Rightarrow> cstate \<Rightarrow> category_config list \<times> cstate" where
  "getAllCategories e s =
     (let (activeProducts, s1) = getAllActiveProducts e s;
          categoriesWithProducts = foldl (\<lambda>st c. set_add c st) [] (map category (deref s1 activeProducts))
      in (filter (\<lambda>cat. cat_id cat \<in> set categoriesWithProducts) (categoriesData s1), s1))"

text \<open>\<^verbatim>\<open>getUniqueTags\<close> (lines 468-478) and \<^verbatim>\<open>getUniqueSubCategories\<close> (lines
  485-495), on an array of products given by address.  \<^verbatim>\<open>sort()\<close> without a
  comparator orders strings by their code units.\<close>

definition getUniqueTags :: "addr \<Rightarrow> cstate \<Rightarrow> jstring list \<times> cstate" where
  "getUniqueTags products s =
     (let tagsSet =
            foldl (\<lambda>st product.
                     case tags product of
                       None \<Rightarrow> st
                     | Some ts \<Rightarrow> foldl (\<lambda>st' tag. set_add tag st') st ts)
              [] (deref s products)
      in (sort tagsSet, s))"

definition getUniqueSubCategories :: "addr \<Rightarrow> cstate \<Rightarrow> jstring list \<times> cstate" where
  "getUniqueSubCategories products s =
     (let subCatsSet =
            foldl (\<lambda>st product.
                     case sub_category product of
                       None \<Rightarrow> st
                     | Some sc \<Rightarrow> if sc \<noteq> [] then set_add sc st else st)
              [] (deref s products)
      in (sort subCatsSet, s))"

text \<open>\<^verbatim>\<open>searchProducts\<close> (lines 533-552).  An absent or empty \<^verbatim>\<open>sub_category\<close> and
  an absent \<^verbatim>\<open>tags\<close> make their disjunct false.\<close>

definition searchProducts :: "env \<Rightarrow> jstring \<Rightarrow> cstate \<Rightarrow> addr \<times> cstate" where
  "searchProducts e query s =
     (if query = [] \<or> trim query = [] then alloc [] s
      else
        let searchTerm = trim (toLowerCase e query);
            (activeProducts, s1) = getAllActiveProducts e s
        in arr_filter
             (\<lambda>product.
                str_includes (toLowerCase e (name product)) searchTerm \<or>
                str_includes (toLowerCase e (description product)) searchTerm \<or>
                str_includes (toLowerCase e (category product)) searchTerm \<or>
                (case sub_category product of
                   None \<Rightarrow> False
                 | Some sc \<Rightarrow> sc \<noteq> [] \<and> str_includes (toLowerCase e sc) searchTerm) \<or>
                (case tags product of
                   None \<Rightarrow> False
                 | Some ts \<Rightarrow> list_ex (\<lambda>tag. str_includes (toLowerCase e tag) searchTerm) ts))
             activeProducts s1)"

text \<open>\<^verbatim>\<open>getHomeData\<close> (lines 595-597).\<close>

definition getHomeData :: "cstate \<Rightarrow> json" where
  "getHomeData s = homeData s"

text \<open>\<^verbatim>\<open>getRelatedProducts\<close> (lines 621-630); the limit is \<open>None\<close> when the argument
  is omitted, and then 4.\<close>

definition getRelatedProducts ::
  "env \<Rightarrow> jstring \<Rightarrow> jstring \<Rightarrow> int option \<Rightarrow> cstate \<Rightarrow> addr \<times> cstate" where
  "getRelatedProducts e productId c limit s =
     (let (categoryProducts, s1) = getProductsByCategory e c None s;
          (relatedProducts, s2) = arr_filter (\<lambda>p. product_id p \<noteq> productId) categoryProducts s1;
          (shuffled, s3) = arr_shuffle e relatedProducts s2
      in arr_slice shuffled 0 (case limit of None \<Rightarrow> 4 | Some n \<Rightarrow> n) s3)"

section \<open>Loading\<close>

text \<open>
  \<^verbatim>\<open>loadAllData\<close> (lines 342-367).  A \<^verbatim>\<open>fetch\<close> either rejects or resolves to a
  response with its \<^verbatim>\<open>ok\<close> flag and the outcome of \<^verbatim>\<open>json()\<close> (\<open>None\<close> when the body
  is not JSON and \<^verbatim>\<open>json()\<close> rejects).  The three requests are issued before any of
  them is awaited.  A failure anywhere in the \<^verbatim>\<open>try\<close> block ends in the \<^verbatim>\<open>catch\<close>
  branch, which returns false and keeps the assignments made so far.
\<close>

datatype 'a response = Rejected | Response bool "'a option"

record responses =
  productsRes :: "product list response"
  categoriesRes :: "category_config list response"
  homeRes :: "json response"

definition loadAllData :: "responses \<Rightarrow> cstate \<Rightarrow> bool \<times> cstate" where
  "loadAllData rs s =
     (if dataLoaded s then (True, s)
      else
        let s0 = s\<lparr>fetched := fetched s @
                     [''/home/women/data/womenproducts.json'',
                      ''/home/women/data/categories.json'',
                      ''/home/women/data/home.json'']\<rparr>
        in case (productsRes rs, categoriesRes rs, homeRes rs) of
             (Response ok1 body1, Response ok2 body2, Response ok3 body3) \<Rightarrow>
               if \<not> ok1 \<or> \<not> ok2 \<or> \<not> ok3 then (False, s0)
               else
                 (case body1 of
                    None \<Rightarrow> (False, s0)
                  | Some ps \<Rightarrow>
                      let (a, s1') = alloc ps s0;
                          s1 = s1'\<lparr>productsData := a\<rparr>
                      in (case body2 of
                            None \<Rightarrow> (False, s1)
                          | Some cs \<Rightarrow>
                              let s2 = s1\<lparr>categoriesData := cs\<rparr>
                              in (case body3 of
                                    None \<Rightarrow> (False, s2)
                                  | Some h \<Rightarrow>
                                      (True, s2\<lparr>homeData := h, dataLoaded := True\<rparr>))))
           | _ \<Rightarrow> (False, s0))"

section \<open>Calls of the public interface\<close>

text \<open>
  The reading functions of the public interface (lines 633-651), with their arguments,
  and what a caller sees of an answer: the contents of a returned array rather than its
  address.
\<close>

datatype query =
    GetAllActiveProducts
  | GetProductById jstring
  | GetProductsByCategory jstring "int option"
  | GetRecentlyAddedProducts "int option"
  | GetFeaturedProducts
  | GetCategoryConfig jstring
  | GetAllCategories
  | GetUniqueTags addr
  | GetUniqueSubCategories addr
  | SearchProducts jstring
  | GetHomeData
  | GetRelatedProducts jstring jstring "int option"

datatype answer =
    Products "product list"
  | Product "product option"
  | Category "category_config option"
  | Categories "category_config list"
  | Strings "jstring list"
  | Home json
  | Loaded bool

definition products_answer :: "addr \<times> cstate \<Rightarrow> answer \<times> cstate" where
  "products_answer r = (Products (returned r), snd r)"

fun run_query :: "env \<Rightarrow> query \<Rightarrow> cstate \<Rightarrow> answer \<times> cstate" where
  "run_query e GetAllActiveProducts s = products_answer (getAllActiveProducts e s)"
| "run_query e (GetProductById i) s = (Product (getProductById e i s), s)"
| "run_query e (GetProductsByCategory c limit) s =
     products_answer (getProductsByCategory e c limit s)"
| "run_query e (GetRecentlyAddedProducts limit) s =
     products_answer (getRecentlyAddedProducts e limit s)"
| "run_query e GetFeaturedProducts s = products_answer (getFeaturedProducts e s)"
| "run_query e (GetCategoryConfig c) s = (Category (getCategoryConfig c s), s)"
| "run_query e GetAllCategories s =
     (let r = getAllCategories e s in (Categories (fst r), snd r))"
| "run_query e (GetUniqueTags a) s = (let r = getUniqueTags a s in (Strings (fst r), snd r))"
| "run_query e (GetUniqueSubCategories a) s =
     (let r = getUniqueSubCategories a s in (Strings (fst r), snd r))"
| "run_query e (SearchProducts q) s = products_answer (searchProducts e q s)"
| "run_query e GetHomeData s = (Home (getHomeData s), s)"
| "run_query e (GetRelatedProducts i c limit) s =
     products_answer (getRelatedProducts e i c limit s)"

text \<open>The array arguments of a query are arrays of the store.\<close>

fun args_ok :: "query \<Rightarrow> cstate \<Rightarrow> bool" where
  "args_ok (GetUniqueTags a) s = (a < length (heap s))"
| "args_ok (GetUniqueSubCategories a) s = (a < length (heap s))"
| "args_ok q s = True"

datatype call = Query env query | Load responses

fun run_call :: "call \<Rightarrow> cstate \<Rightarrow> answer \<times> cstate" where
  "run_call (Query e q) s = run_query e q s"
| "run_call (Load rs) s = (let r = loadAllData rs s in (Loaded (fst r), snd r))"

fun call_ok :: "call \<Rightarrow> cstate \<Rightarrow> bool" where
  "call_ok (Query e q) s = args_ok q s"
| "call_ok (Load rs) s = True"

text \<open>A sequence of calls, one after the other.\<close>

fun exec :: "call list \<Rightarrow> cstate \<Rightarrow> cstate" where
  "exec [] s = s"
| "exec (c # cs) s = exec cs (snd (run_call c s))"

text \<open>The cached catalog is an array of the store.\<close>

definition wf_state :: "cstate \<Rightarrow> bool" where
  "wf_state s = (productsData s < length (heap s))"

section \<open>Notions of the specification\<close>

text \<open>The active, published products of the loaded catalog, in catalog order.\<close>

definition active_published :: "env \<Rightarrow> cstate \<Rightarrow> product list" where
  "active_published e s =
     filter (\<lambda>p. active p = 1 \<and> isProductPublished e p) (deref s (productsData s))"

text \<open>\<open>s\<close> contains \<open>t\<close> as a case-insensitive substring: some stretch of \<open>s\<close>
  equals \<open>t\<close> up to the case of letters.\<close>

definition contains_ci :: "env \<Rightarrow> jstring \<Rightarrow> jstring \<Rightarrow> bool" where
  "contains_ci e s t = (\<exists>v. sublist v s \<and> toLowerCase e v = toLowerCase e t)"

text \<open>The products a search for the term \<open>t\<close> is to find, in the words of the
  specification: the name, the description or the category contains \<open>t\<close> as a
  case-insensitive substring, or the \<^verbatim>\<open>sub_category\<close>, when present, or some tag
  does.\<close>

definition claimed_match :: "env \<Rightarrow> jstring \<Rightarrow> product \<Rightarrow> bool" where
  "claimed_match e t p =
     (contains_ci e (name p) t \<or> contains_ci e (description p) t \<or>
      contains_ci e (category p) t \<or>
      (\<exists>sc. sub_category p = Some sc \<and> contains_ci e sc t) \<or>
      (\<exists>ts. tags p = Some ts \<and> (\<exists>tag \<in> set ts. contains_ci e tag t)))"

definition claimed_search :: "env \<Rightarrow> jstring \<Rightarrow> cstate \<Rightarrow> product list" where
  "claimed_search e query s =
     (if list_all is_space query then []
      else filter (claimed_match e (trim (toLowerCase e query))) (active_published e s))"

text \<open>The lowercased \<open>s\<close> contains \<open>t\<close>.\<close>

definition lowered_contains :: "env \<Rightarrow> jstring \<Rightarrow> jstring \<Rightarrow> bool" where
  "lowered_contains e s t = sublist t (toLowerCase e s)"

text \<open>The time value of \<^verbatim>\<open>added_date\<close>.\<close>

definition date_of :: "env \<Rightarrow> product \<Rightarrow> int" where
  "date_of e p = the (parseDate e (added_date p))"

text \<open>A list of products runs from the newest \<^verbatim>\<open>added_date\<close> to the oldest.\<close>

definition newest_first :: "env \<Rightarrow> product list \<Rightarrow> bool" where
  "newest_first e xs = sorted_wrt (\<lambda>a b. date_of e b \<le> date_of e a) xs"

text \<open>The state \<open>t\<close> is the state \<open>s\<close> with more arrays allocated: the arrays of \<open>s\<close>
  and the closure variables are as they were.\<close>

definition extends :: "cstate \<Rightarrow> cstate \<Rightarrow> bool" where
  "extends s t =
     (prefix (heap s) (heap t) \<and> productsData t = productsData s \<and>
      categoriesData t = categoriesData s \<and> homeData t = homeData s \<and>
      dataLoaded t = dataLoaded s \<and> fetched t = fetched s)"

section \<open>A small catalog\<close>

text \<open>
  The case conversion of the engines on strings of letters, digits and spaces of Basic
  Latin, Latin-1 and the Greek capitals: a capital letter moves up by 32, and the
  capital sigma (U+03A3) becomes the final sigma (U+03C2) after a letter and before no
  letter, and the small sigma (U+03C3) elsewhere.
\<close>

definition is_letter :: "code_unit \<Rightarrow> bool" where
  "is_letter c =
     ((0x41 \<le> c \<and> c \<le> 0x5A) \<or> (0x61 \<le> c \<and> c \<le> 0x7A) \<or>
      c = 0xAA \<or> c = 0xB5 \<or> c = 0xBA \<or>
      (0xC0 \<le> c \<and> c \<le> 0xFF \<and> c \<noteq> 0xD7 \<and> c \<noteq> 0xF7) \<or>
      (0x391 \<le> c \<and> c \<le> 0x3A9 \<and> c \<noteq> 0x3A2) \<or> (0x3B1 \<le> c \<and> c \<le> 0x3C9))"

definition is_capital :: "code_unit \<Rightarrow> bool" where
  "is_capital c =
     ((0x41 \<le> c \<and> c \<le> 0x5A) \<or> (0xC0 \<le> c \<and> c \<le> 0xDE \<and> c \<noteq> 0xD7) \<or>
      (0x391 \<le> c \<and> c \<le> 0x3A9 \<and> c \<noteq> 0x3A2))"

fun lower_after :: "bool \<Rightarrow> jstring \<Rightarrow> jstring" where
  "lower_after after_letter [] = []"
| "lower_after after_letter (c # cs) =
     (if c = 0x3A3 then
        (if after_letter \<and> (case cs of [] \<Rightarrow> True | d # ds \<Rightarrow> \<not> is_letter d)
         then 0x3C2 else 0x3C3)
      else if is_capital c then c + 32 else c)
     # lower_after (is_letter c) cs"

definition ex_lowerCase :: "jstring \<Rightarrow> jstring" where
  "ex_lowerCase s = lower_after False s"

text \<open>
  A browser on UTC in November 2023, whose parser knows three dates, and a catalog of
  five products: a published shirt, a scarf scheduled for 2030, inactive boots, a dress
  published since 2020, and a hat whose \<^verbatim>\<open>publish_at\<close> is not a date.
\<close>

definition ex_env :: env where
  "ex_env =
     \<lparr> now = 1700000000000, timezoneOffset = 0,
       parseDate = (\<lambda>s. if s = utf16 ''2020-01-01'' then Some 1577836800000
                         else if s = utf16 ''2021-06-01'' then Some 1622505600000
                         else if s = utf16 ''2030-01-01'' then Some 1893456000000
                         else None),
       lowerCase = ex_lowerCase,
       shuffle = rev \<rparr>"

definition ex_shirt :: product where
  "ex_shirt =
     \<lparr> product_id = utf16 ''p1'', name = utf16 ''Linen Shirt'', description = utf16 ''A light shirt'',
       category = utf16 ''tops'', sub_category = Some (utf16 ''shirts''),
       tags = Some [utf16 ''summer'', utf16 ''linen''],
       active = 1, featured = 1, publish_at = None, added_date = utf16 ''2020-01-01'' \<rparr>"

definition ex_scarf :: product where
  "ex_scarf =
     \<lparr> product_id = utf16 ''p2'', name = utf16 ''Silk Scarf'', description = utf16 ''A scarf'',
       category = utf16 ''accessories'', sub_category = None, tags = None,
       active = 1, featured = 1, publish_at = Some (utf16 ''2030-01-01''),
       added_date = utf16 ''2021-06-01'' \<rparr>"

definition ex_boots :: product where
  "ex_boots =
     \<lparr> product_id = utf16 ''p3'', name = utf16 ''Boots'', description = utf16 ''Leather boots'',
       category = utf16 ''shoes'', sub_category = None, tags = Some [utf16 ''winter''],
       active = 0, featured = 0, publish_at = None, added_date = utf16 ''2020-01-01'' \<rparr>"

definition ex_dress :: product where
  "ex_dress =
     \<lparr> product_id = utf16 ''p4'', name = utf16 ''Dress'', description = utf16 ''A summer dress'',
       category = utf16 ''tops'', sub_category = Some [], tags = Some [utf16 ''summer''],
       active = 1, featured = 0, publish_at = Some (utf16 ''2020-01-01''),
       added_date = utf16 ''2021-06-01'' \<rparr>"

definition ex_hat :: product where
  "ex_hat =
     \<lparr> product_id = utf16 ''p5'', name = utf16 ''Hat'', description = utf16 ''A straw hat'',
       category = utf16 ''accessories'', sub_category = None, tags = None,
       active = 1, featured = 0, publish_at = Some (utf16 ''soon''),
       added_date = utf16 ''2021-06-01'' \<rparr>"

definition ex_categories :: "category_config list" where
  "ex_categories =
     [\<lparr> cat_id = utf16 ''shoes'', label = utf16 ''Shoes'' \<rparr>,
      \<lparr> cat_id = utf16 ''tops'', label = utf16 ''Tops'' \<rparr>,
      \<lparr> cat_id = utf16 ''accessories'', label = utf16 ''Accessories'' \<rparr>]"

definition ex_state :: cstate where
  "ex_state =
     \<lparr> heap = [[ex_shirt, ex_scarf, ex_boots, ex_dress, ex_hat]], productsData = 0,
       categoriesData = ex_categories, homeData = JNull, dataLoaded = True,
       fetched = [''/home/women/data/womenproducts.json'',
                  ''/home/women/data/categories.json'',
                  ''/home/women/data/home.json''] \<rparr>"

definition ex_responses :: responses where
  "ex_responses =
     \<lparr> productsRes = Response True (Some [ex_shirt, ex_scarf, ex_boots, ex_dress, ex_hat]),
       categoriesRes = Response True (Some ex_categories),
       homeRes = Response True (Some JNull) \<rparr>"

text \<open>
  A coat added in 2030, and a catalog of the shirt, the dress and the coat, all three
  active and published.
\<close>

definition ex_coat :: product where
  "ex_coat =
     \<lparr> product_id = utf16 ''p6'', name = utf16 ''Coat'', description = utf16 ''A wool coat'',
       category = utf16 ''tops'', sub_category = None, tags = None,
       active = 1, featured = 0, publish_at = None, added_date = utf16 ''2030-01-01'' \<rparr>"

definition ex_recent_state :: cstate where
  "ex_recent_state = ex_state\<lparr>heap := [[ex_shirt, ex_dress, ex_coat]]\<rparr>"

text \<open>
  A street sign whose name is the Greek word for street in capitals (U+039F U+0394
  U+039F U+03A3, which the engines lowercase with a final sigma), a catalog of it alone,
  and the capital sigma as a query.
\<close>

definition ex_sign :: product where
  "ex_sign =
     \<lparr> product_id = utf16 ''p7'', name = [0x39F, 0x394, 0x39F, 0x3A3],
       description = utf16 ''A street sign'',
       category = utf16 ''decor'', sub_category = None, tags = None,
       active = 1, featured = 0, publish_at = None, added_date = utf16 ''2020-01-01'' \<rparr>"

definition ex_sign_state :: cstate where
  "ex_sign_state = ex_state\<lparr>heap := [[ex_sign]]\<rparr>"

definition ex_sigma :: jstring where
  "ex_sigma = [0x3A3]"

section \<open>Arrays and strings\<close>

subsection \<open>What the views return\<close>

lemma returned_alloc: "returned (alloc xs s) = xs"
  by (simp add: returned_def alloc_def deref_def)

lemma getAllActiveProducts_alloc:
  "getAllActiveProducts e s = alloc (active_published e s) s"
  by (simp add: getAllActiveProducts_def arr_filter_def active_published_def)

lemma getProductsByCategory_content:
  "returned (getProductsByCategory e c limit s) =
     (let products = filter (\<lambda>p. category p = c) (active_published e s)
      in case limit of None \<Rightarrow> products
         | Some n \<Rightarrow> if n \<noteq> 0 then js_slice products 0 n else products)"
  by (simp add: getProductsByCategory_def getAllActiveProducts_alloc arr_filter_def arr_slice_def
      alloc_def returned_def deref_def Let_def nth_append split: option.splits)

lemma getRecentlyAddedProducts_content:
  "returned (getRecentlyAddedProducts e limit s) =
     js_slice (js_sort (byAddedDate e) (active_published e s)) 0 (case limit of None \<Rightarrow> 6 | Some n \<Rightarrow> n)"
  by (simp add: getRecentlyAddedProducts_def getAllActiveProducts_alloc arr_filter_def arr_slice_def arr_sort_def
      alloc_def returned_def deref_def Let_def nth_append split: option.splits)

lemma getFeaturedProducts_content:
  "returned (getFeaturedProducts e s) = filter (\<lambda>p. featured p = 1) (active_published e s)"
  by (simp add: getFeaturedProducts_def getAllActiveProducts_alloc arr_filter_def arr_slice_def arr_sort_def
      alloc_def returned_def deref_def Let_def nth_append split: option.splits)

lemma set_foldl_set_add: "set (foldl (\<lambda>st c. set_add c st) acc xs) = set acc \<union> set xs"
  by (induction xs arbitrary: acc) (auto simp: set_add_def)

lemma getAllCategories_content:
  "fst (getAllCategories e s) =
     filter (\<lambda>cat. cat_id cat \<in> category ` set (active_published e s)) (categoriesData s)"
  by (simp add: getAllCategories_def getAllActiveProducts_alloc alloc_def deref_def Let_def set_foldl_set_add)

lemma searchProducts_content:
  "returned (searchProducts e query s) =
     (if query = [] \<or> trim query = [] then []
      else filter (\<lambda>product.
                str_includes (toLowerCase e (name product)) (trim (toLowerCase e query)) \<or>
                str_includes (toLowerCase e (description product)) (trim (toLowerCase e query)) \<or>
                str_includes (toLowerCase e (category product)) (trim (toLowerCase e query)) \<or>
                (case sub_category product of
                   None \<Rightarrow> False
                 | Some sc \<Rightarrow> sc \<noteq> [] \<and> str_includes (toLowerCase e sc) (trim (toLowerCase e query))) \<or>
                (case tags product of
                   None \<Rightarrow> False
                 | Some ts \<Rightarrow> list_ex (\<lambda>tag. str_includes (toLowerCase e tag) (trim (toLowerCase e query))) ts))
             (active_published e s))"
  by (simp add: searchProducts_def getAllActiveProducts_alloc arr_filter_def 
      alloc_def returned_def deref_def Let_def nth_append)

lemma getRelatedProducts_content:
  "returned (getRelatedProducts e i c limit s) =
     js_slice (shuffle e (filter (\<lambda>p. product_id p \<noteq> i) (filter (\<lambda>p. category p = c) (active_published e s))))
        0 (case limit of None \<Rightarrow> 4 | Some n \<Rightarrow> n)"
  by (simp add: getRelatedProducts_def getProductsByCategory_def getAllActiveProducts_alloc arr_filter_def arr_slice_def arr_shuffle_def
      alloc_def returned_def deref_def Let_def nth_append split: option.splits)

lemma js_slice_from_start:
  "0 \<le> n \<Longrightarrow> js_slice xs 0 n = take (nat n) xs"
  by (cases "nat n \<le> length xs") (simp_all add: js_slice_def rel_index_def min_def)

lemma js_slice_from_start_take: "js_slice xs 0 n = take (rel_index n (length xs)) xs"
  by (simp add: js_slice_def rel_index_def)

subsection \<open>Strings\<close>

lemma str_includes_sublist: "str_includes s t = sublist t s"
  by (induction s) (auto simp add: sublist_Cons_right)

lemma toLowerCase_empty: "toLowerCase e [] = []"
  by (simp add: toLowerCase_def)

lemma dropWhile_all_iff: "(\<forall>c \<in> set (dropWhile P s). P c) \<longleftrightarrow> dropWhile P s = []"
proof
  assume all: "\<forall>c \<in> set (dropWhile P s). P c"
  show "dropWhile P s = []"
  proof (rule ccontr)
    assume ne: "dropWhile P s \<noteq> []"
    then have "\<not> P (hd (dropWhile P s))"
      by (rule hd_dropWhile)
    moreover from ne have "hd (dropWhile P s) \<in> set (dropWhile P s)"
      by (rule hd_in_set)
    ultimately show False
      using all by blast
  qed
next
  assume "dropWhile P s = []"
  then show "\<forall>c \<in> set (dropWhile P s). P c"
    by (simp only: set_simps ball_empty)
qed

lemma trim_empty_iff: "trim s = [] \<longleftrightarrow> list_all is_space s"
proof -
  have "trim s = [] \<longleftrightarrow> (\<forall>c \<in> set (dropWhile is_space s). is_space c)"
    by (simp add: trim_def)
  also have "\<dots> \<longleftrightarrow> dropWhile is_space s = []"
    by (rule dropWhile_all_iff)
  also have "\<dots> \<longleftrightarrow> list_all is_space s"
    by (simp add: list_all_iff)
  finally show ?thesis .
qed

text \<open>An empty \<^verbatim>\<open>sub_category\<close> matches no term but the empty one, which the name
  matches as well.\<close>

lemma sub_category_disjunct:
  "(str_includes (toLowerCase e n) t \<or>
      (case sc_opt of None \<Rightarrow> False
       | Some sc \<Rightarrow> sc \<noteq> [] \<and> str_includes (toLowerCase e sc) t)) =
   (lowered_contains e n t \<or> (\<exists>sc. sc_opt = Some sc \<and> lowered_contains e sc t))"
proof (cases sc_opt)
  case None
  then show ?thesis
    by (simp add: lowered_contains_def str_includes_sublist)
next
  case (Some sc)
  show ?thesis
  proof (cases "sc = []")
    case True
    have "sublist t [] \<Longrightarrow> sublist t (toLowerCase e n)"
      by simp
    with True Some show ?thesis
      by (auto simp add: lowered_contains_def str_includes_sublist toLowerCase_empty)
  next
    case False
    with Some show ?thesis
      by (simp add: lowered_contains_def str_includes_sublist)
  qed
qed

subsection \<open>Sorting\<close>

lemma mset_insert_by: "mset (insert_by c x ys) = add_mset x (mset ys)"
  by (induction ys) simp_all

lemma mset_js_sort: "mset (js_sort c xs) = mset xs"
  by (induction xs) (simp_all add: js_sort_def mset_insert_by)

lemma set_js_sort: "set (js_sort c xs) = set xs"
  using mset_js_sort[of c xs] by (metis set_mset_mset)

lemma set_insert_by: "set (insert_by c x ys) = insert x (set ys)"
  using mset_insert_by[of c x ys] by (metis set_mset_mset set_mset_add_mset_insert)

lemma sort_compare_byAddedDate:
  "parseDate e (added_date a) \<noteq> None \<Longrightarrow> parseDate e (added_date b) \<noteq> None \<Longrightarrow>
   sort_compare (byAddedDate e) a b = date_of e b - date_of e a"
  by (auto simp add: sort_compare_def byAddedDate_def date_of_def)

lemma newest_first_insert_by:
  assumes "parseDate e (added_date x) \<noteq> None"
    and "\<forall>y \<in> set ys. parseDate e (added_date y) \<noteq> None"
    and "newest_first e ys"
  shows "newest_first e (insert_by (byAddedDate e) x ys)"
  using assms
proof (induction ys)
  case Nil
  then show ?case by (simp add: newest_first_def)
next
  case (Cons y ys)
  show ?case
  proof (cases "sort_compare (byAddedDate e) x y \<le> 0")
    case True
    with Cons.prems have "date_of e y \<le> date_of e x"
      by (simp add: sort_compare_byAddedDate)
    with True Cons.prems show ?thesis
      by (auto simp add: newest_first_def)
  next
    case False
    with Cons.prems have "date_of e x \<le> date_of e y"
      by (simp add: sort_compare_byAddedDate)
    moreover from Cons have "newest_first e (insert_by (byAddedDate e) x ys)"
      by (simp add: newest_first_def)
    ultimately show ?thesis
      using False Cons.prems by (auto simp add: newest_first_def set_insert_by)
  qed
qed

lemma newest_first_js_sort:
  "\<forall>y \<in> set xs. parseDate e (added_date y) \<noteq> None \<Longrightarrow>
   newest_first e (js_sort (byAddedDate e) xs)"
proof (induction xs)
  case Nil
  then show ?case by (simp add: js_sort_def newest_first_def)
next
  case (Cons x xs)
  then have "newest_first e (js_sort (byAddedDate e) xs)"
    by simp
  with Cons.prems have "newest_first e (insert_by (byAddedDate e) x (js_sort (byAddedDate e) xs))"
    by (intro newest_first_insert_by) (simp_all add: set_js_sort)
  then show ?case
    by (simp add: js_sort_def)
qed

lemma length_js_slice_from_start:
  "length (js_slice xs 0 n) =
     (if 0 \<le> n then min (nat n) (length xs) else length xs - nat (- n))"
  by (auto simp add: js_slice_from_start_take rel_index_def)

lemma length_js_sort: "length (js_sort c xs) = length xs"
  using mset_js_sort[of c xs] by (metis size_mset)

lemma newest_first_split:
  "newest_first e (xs @ ys) \<Longrightarrow> \<forall>q \<in> set ys. \<forall>p \<in> set xs. date_of e q \<le> date_of e p"
  by (auto simp add: newest_first_def sorted_wrt_append)

subsection \<open>Scheduled publishing\<close>

lemma new_Date_never_throws: "new_Date e s \<noteq> Inl x"
  by (simp add: new_Date_def)

lemma isProductPublished_absent: "publish_at p = None \<Longrightarrow> isProductPublished e p"
  by (simp add: isProductPublished_def new_Date_def date_ge_def)

lemma isProductPublished_parsed:
  "publish_at p = Some d \<Longrightarrow> d \<noteq> [] \<Longrightarrow> parseDate e d = Some t \<Longrightarrow>
   isProductPublished e p \<longleftrightarrow> t \<le> now e + timezoneOffset e * 60000 + 19800000"
  by (simp add: isProductPublished_def new_Date_def date_ge_def getCurrentIST_def)

subsection \<open>States that only grow\<close>

lemma extends_refl: "extends s s"
  by (simp add: extends_def)

lemma extends_trans: "extends s t \<Longrightarrow> extends t u \<Longrightarrow> extends s u"
  by (auto simp add: extends_def)

lemma extends_alloc: "extends s (snd (alloc xs s))"
  by (simp add: extends_def alloc_def)

lemma extends_deref: "extends s t \<Longrightarrow> a < length (heap s) \<Longrightarrow> deref t a = deref s a"
  by (auto simp add: extends_def deref_def prefix_def nth_append)

lemma extends_active_published:
  "extends s t \<Longrightarrow> wf_state s \<Longrightarrow> active_published e t = active_published e s"
proof -
  assume ext: "extends s t" and "wf_state s"
  then have "deref t (productsData s) = deref s (productsData s)"
    by (simp add: extends_deref wf_state_def)
  moreover from ext have "productsData t = productsData s"
    by (simp add: extends_def)
  ultimately show ?thesis
    by (simp add: active_published_def)
qed

lemma extends_getAllActiveProducts: "extends s (snd (getAllActiveProducts e s))"
  by (simp add: getAllActiveProducts_alloc extends_alloc)

lemma extends_getProductsByCategory: "extends s (snd (getProductsByCategory e c limit s))"
  by (simp add: extends_def getProductsByCategory_def getAllActiveProducts_alloc arr_filter_def
      arr_slice_def alloc_def Let_def split: option.splits)

lemma extends_getRecentlyAddedProducts: "extends s (snd (getRecentlyAddedProducts e limit s))"
  by (simp add: extends_def getRecentlyAddedProducts_def getAllActiveProducts_alloc arr_sort_def
      arr_slice_def alloc_def Let_def)

lemma extends_getFeaturedProducts: "extends s (snd (getFeaturedProducts e s))"
  by (simp add: extends_def getFeaturedProducts_def getAllActiveProducts_alloc arr_filter_def
      alloc_def Let_def)

lemma extends_getAllCategories: "extends s (snd (getAllCategories e s))"
  by (simp add: extends_def getAllCategories_def getAllActiveProducts_alloc alloc_def Let_def)

lemma extends_searchProducts: "extends s (snd (searchProducts e q s))"
  by (simp add: extends_def searchProducts_def getAllActiveProducts_alloc arr_filter_def
      alloc_def Let_def)

lemma extends_getRelatedProducts: "extends s (snd (getRelatedProducts e i c limit s))"
  by (simp add: extends_def getRelatedProducts_def getProductsByCategory_def
      getAllActiveProducts_alloc arr_filter_def arr_shuffle_def arr_slice_def alloc_def Let_def)

lemma extends_run_query: "extends s (snd (run_query e q s))"
  by (cases q)
    (simp_all add: products_answer_def extends_refl extends_getAllActiveProducts
      extends_getProductsByCategory extends_getRecentlyAddedProducts extends_getFeaturedProducts
      extends_getAllCategories extends_searchProducts extends_getRelatedProducts
      getUniqueTags_def getUniqueSubCategories_def Let_def)

lemma run_query_extends_answer:
  assumes "extends s t" and "wf_state s" and "args_ok q s"
  shows "fst (run_query e q t) = fst (run_query e q s)"
proof -
  have act: "active_published e t = active_published e s"
    using assms by (simp add: extends_active_published)
  have cache: "deref t (productsData t) = deref s (productsData s)"
    "categoriesData t = categoriesData s" "homeData t = homeData s"
    using assms extends_deref[of s t "productsData s"] by (simp_all add: extends_def wf_state_def)
  show ?thesis
  proof (cases q)
    case (GetUniqueTags a)
    with assms have "deref t a = deref s a"
      by (simp add: extends_deref)
    with GetUniqueTags show ?thesis
      by (simp add: getUniqueTags_def Let_def)
  next
    case (GetUniqueSubCategories a)
    with assms have "deref t a = deref s a"
      by (simp add: extends_deref)
    with GetUniqueSubCategories show ?thesis
      by (simp add: getUniqueSubCategories_def Let_def)
  qed (simp_all add: products_answer_def returned_alloc getAllActiveProducts_alloc
        getProductsByCategory_content getRecentlyAddedProducts_content
        getFeaturedProducts_content getAllCategories_content searchProducts_content
        getRelatedProducts_content getProductById_def getCategoryConfig_def getHomeData_def
        act cache Let_def)
qed

lemma loadAllData_answer:
  "fst (loadAllData rs s) =
     (dataLoaded s \<or>
      (\<exists>ps cs h. productsRes rs = Response True (Some ps) \<and>
         categoriesRes rs = Response True (Some cs) \<and> homeRes rs = Response True (Some h)))"
proof (cases "dataLoaded s")
  case True
  then show ?thesis
    by (simp add: loadAllData_def)
next
  case False
  then show ?thesis
    by (cases "productsRes rs"; cases "categoriesRes rs"; cases "homeRes rs")
      (auto simp add: loadAllData_def alloc_def Let_def split: option.splits)
qed

lemma run_call_extends_answer:
  assumes "extends s t" and "wf_state s" and "call_ok c s"
  shows "fst (run_call c t) = fst (run_call c s)"
proof (cases c)
  case (Query e q)
  with assms show ?thesis
    by (simp add: run_query_extends_answer)
next
  case (Load rs)
  with assms show ?thesis
    by (simp add: loadAllData_answer extends_def Let_def)
qed

lemma extends_exec_queries: "extends s (exec (map (\<lambda>(e, q). Query e q) qs) s)"
proof (induction qs arbitrary: s)
  case Nil
  show ?case by (simp add: extends_refl)
next
  case (Cons x qs)
  obtain e q where x: "x = (e, q)"
    by (cases x)
  have "extends s (snd (run_query e q s))"
    by (rule extends_run_query)
  moreover have "extends (snd (run_query e q s))
      (exec (map (\<lambda>(e, q). Query e q) qs) (snd (run_query e q s)))"
    by (rule Cons.IH)
  ultimately show ?case
    using x by (auto intro: extends_trans)
qed

lemma wf_state_init: "wf_state init_state"
  by (simp add: wf_state_def init_state_def)

lemma wf_state_run_query: "wf_state s \<Longrightarrow> wf_state (snd (run_query e q s))"
  using extends_run_query[of s e q] by (auto simp add: wf_state_def extends_def prefix_def)

lemma wf_state_loadAllData: "wf_state s \<Longrightarrow> wf_state (snd (loadAllData rs s))"
  by (cases "dataLoaded s"; cases "productsRes rs"; cases "categoriesRes rs"; cases "homeRes rs")
    (auto simp add: wf_state_def loadAllData_def alloc_def Let_def split: option.splits)

subsection \<open>Loading\<close>

lemma loadAllData_loaded: "dataLoaded s \<Longrightarrow> loadAllData rs s = (True, s)"
  by (simp add: loadAllData_def)

lemma loadAllData_sets_loaded:
  assumes "fst (loadAllData rs s)"
  shows "dataLoaded (snd (loadAllData rs s))"
proof (cases "dataLoaded s")
  case True
  then show ?thesis
    by (simp add: loadAllData_loaded)
next
  case False
  with assms obtain ps cs h where "productsRes rs = Response True (Some ps)"
    "categoriesRes rs = Response True (Some cs)" "homeRes rs = Response True (Some h)"
    by (auto simp add: loadAllData_answer)
  with False show ?thesis
    by (simp add: loadAllData_def alloc_def Let_def)
qed

lemma run_call_loaded: "dataLoaded s \<Longrightarrow> extends s (snd (run_call c s))"
  by (cases c) (simp_all add: extends_run_query loadAllData_loaded extends_refl)

lemma exec_loaded: "dataLoaded s \<Longrightarrow> extends s (exec cs s)"
proof (induction cs arbitrary: s)
  case Nil
  then show ?case by (simp add: extends_refl)
next
  case (Cons c cs)
  then have step: "extends s (snd (run_call c s))"
    by (simp add: run_call_loaded)
  with Cons.prems have "dataLoaded (snd (run_call c s))"
    by (simp add: extends_def)
  then have "extends (snd (run_call c s)) (exec cs (snd (run_call c s)))"
    by (rule Cons.IH)
  with step show ?case
    by (auto intro: extends_trans)
qed

subsection \<open>The small catalog\<close>

lemmas ex_defs = utf16_def ex_env_def ex_shirt_def ex_scarf_def ex_boots_def ex_dress_def ex_hat_def
  ex_categories_def ex_state_def ex_responses_def

lemma ex_active: "active_published ex_env ex_state = [ex_shirt, ex_dress]"
  by (simp add: active_published_def deref_def isProductPublished_def new_Date_def date_ge_def getCurrentIST_def ex_defs)

lemmas ex_more_defs = ex_coat_def ex_recent_state_def ex_sign_def ex_sign_state_def ex_sigma_def

lemma ex_recent_active: "active_published ex_env ex_recent_state = [ex_shirt, ex_dress, ex_coat]"
  by (simp add: active_published_def deref_def isProductPublished_def new_Date_def date_ge_def
      getCurrentIST_def ex_defs ex_more_defs)

lemma ex_dates:
  "parseDate ex_env (added_date ex_shirt) = Some 1577836800000"
  "parseDate ex_env (added_date ex_dress) = Some 1622505600000"
  "parseDate ex_env (added_date ex_coat) = Some 1893456000000"
  by (simp_all add: ex_defs ex_more_defs)

lemma ex_sorted:
  "js_sort (byAddedDate ex_env) [ex_shirt, ex_dress] = [ex_dress, ex_shirt]"
  "js_sort (byAddedDate ex_env) [ex_shirt, ex_dress, ex_coat] = [ex_coat, ex_dress, ex_shirt]"
  by (simp_all add: js_sort_def sort_compare_def byAddedDate_def ex_dates)

lemma ex_sign_active: "active_published ex_env ex_sign_state = [ex_sign]"
  by (simp add: active_published_def deref_def isProductPublished_def ex_defs ex_more_defs)

lemma ex_sign_fields:
  "sub_category ex_sign = None" "tags ex_sign = None"
  by (simp_all add: ex_sign_def)

lemma ex_sigma_lower:
  "toLowerCase ex_env ex_sigma = [0x3C3]" "toLowerCase ex_env [0x3C3] = [0x3C3]"
  "trim [0x3C3] = [0x3C3]" "\<not> list_all is_space ex_sigma"
  by code_simp+

lemma ex_sign_no_match:
  "\<not> str_includes (toLowerCase ex_env (name ex_sign)) [0x3C3]"
  "\<not> str_includes (toLowerCase ex_env (description ex_sign)) [0x3C3]"
  "\<not> str_includes (toLowerCase ex_env (category ex_sign)) [0x3C3]"
  by code_simp+

lemma ex_sign_search: "returned (searchProducts ex_env ex_sigma ex_sign_state) = []"
proof -
  have "\<not> (ex_sigma = [] \<or> trim ex_sigma = [])"
    using ex_sigma_lower(4) by (auto simp add: trim_empty_iff)
  then show ?thesis
    by (simp add: searchProducts_content ex_sign_active ex_sigma_lower ex_sign_no_match
        ex_sign_fields)
qed

lemma ex_shirt_search:
  "trim (toLowerCase ex_env (utf16 ''  SHIRT '')) = utf16 ''shirt''"
  "\<not> list_all is_space (utf16 ''  SHIRT '')" "list_all is_space (utf16 '' '')"
  "str_includes (toLowerCase ex_env (name ex_shirt)) (utf16 ''shirt'')"
  "\<not> str_includes (toLowerCase ex_env (name ex_dress)) (utf16 ''shirt'')"
  "\<not> str_includes (toLowerCase ex_env (description ex_dress)) (utf16 ''shirt'')"
  "\<not> str_includes (toLowerCase ex_env (category ex_dress)) (utf16 ''shirt'')"
  "\<not> str_includes (toLowerCase ex_env []) (utf16 ''shirt'')"
  "\<not> str_includes (toLowerCase ex_env (utf16 ''summer'')) (utf16 ''shirt'')"
  by code_simp+

section \<open>The claims\<close>

text \<open>
  C1.  The claim has \<^verbatim>\<open>isProductPublished\<close> return true when \<^verbatim>\<open>publish_at\<close> cannot be
  parsed as a date, as the comment of the \<^verbatim>\<open>catch\<close> branch does.  The code returns
  false there: for a product whose \<^verbatim>\<open>publish_at\<close> is a string that is not empty and
  does not parse, \<^verbatim>\<open>isProductPublished\<close> is false, at any time.
\<close>

theorem isProductPublished_unparseable:
  "publish_at p = Some d \<Longrightarrow> d \<noteq> [] \<Longrightarrow> parseDate e d = None \<Longrightarrow> \<not> isProductPublished e p"
  by (simp add: isProductPublished_def new_Date_def date_ge_def)

theorem isProductPublished_unparseable_witness:
  "publish_at ex_hat = Some (utf16 ''soon'') \<and> parseDate ex_env (utf16 ''soon'') = None \<and>
   \<not> isProductPublished ex_env ex_hat \<and>
   active ex_hat = 1 \<and> ex_hat \<notin> set (returned (getAllActiveProducts ex_env ex_state))"
proof -
  have "publish_at ex_hat = Some (utf16 ''soon'')" "(utf16 ''soon'') \<noteq> []" "parseDate ex_env (utf16 ''soon'') = None"
    by (simp_all add: ex_defs)
  moreover have "active ex_hat = 1"
    by (simp add: ex_defs)
  moreover have "ex_hat \<notin> set (returned (getAllActiveProducts ex_env ex_state))"
    by (simp add: getAllActiveProducts_alloc returned_alloc ex_active)
      (simp add: ex_defs)
  ultimately show ?thesis
    using isProductPublished_unparseable[of ex_hat "(utf16 ''soon'')" ex_env] by simp
qed

text \<open>
  C2.  The array returned by \<^verbatim>\<open>getAllActiveProducts\<close> holds exactly the products of the
  loaded catalog whose \<open>active\<close> field is 1 and for which \<open>isProductPublished\<close> holds,
  in catalog order, and no others.
\<close>

theorem getAllActiveProducts_exact:
  "returned (getAllActiveProducts e s) =
     filter (\<lambda>p. active p = 1 \<and> isProductPublished e p) (deref s (productsData s))"
  by (simp add: getAllActiveProducts_def arr_filter_def returned_def alloc_def deref_def)

theorem getAllActiveProducts_exact_witness:
  "returned (getAllActiveProducts ex_env ex_state) = [ex_shirt, ex_dress]"
  using getAllActiveProducts_exact[of ex_env ex_state]
  by (simp add: deref_def isProductPublished_def new_Date_def date_ge_def getCurrentIST_def ex_defs)

text \<open>
  C3.  Once a call of \<^verbatim>\<open>loadAllData\<close> has returned true, every later call of it,
  after any calls of the public interface in between and whatever the server would
  answer, returns true and leaves the whole state as it was: the cached products,
  categories and home data, and the log of requests, so nothing is fetched.  None of the
  calls in between fetches either.
\<close>

theorem loadAllData_once:
  assumes "fst (loadAllData rs s)"
  shows "let s1 = snd (loadAllData rs s); s2 = exec cs s1
         in loadAllData rs' s2 = (True, s2) \<and> fetched s2 = fetched s1"
proof -
  from assms have "dataLoaded (snd (loadAllData rs s))"
    by (rule loadAllData_sets_loaded)
  then have "extends (snd (loadAllData rs s)) (exec cs (snd (loadAllData rs s)))"
    by (rule exec_loaded)
  then show ?thesis
    using \<open>dataLoaded (snd (loadAllData rs s))\<close>
    by (simp add: Let_def extends_def loadAllData_loaded)
qed

theorem loadAllData_once_witness:
  "fst (loadAllData ex_responses init_state) \<and>
   (let s1 = snd (loadAllData ex_responses init_state);
        s2 = exec [Query ex_env (GetRecentlyAddedProducts None),
                   Load \<lparr> productsRes = Rejected, categoriesRes = Rejected, homeRes = Rejected \<rparr>] s1
    in loadAllData ex_responses s2 = (True, s2) \<and> length (fetched s2) = 3)"
proof -
  have t: "fst (loadAllData ex_responses init_state)"
    by (simp add: loadAllData_answer ex_responses_def)
  have f: "length (fetched (snd (loadAllData ex_responses init_state))) = 3"
    by (simp add: loadAllData_def alloc_def init_state_def ex_responses_def Let_def)
  show ?thesis
    using loadAllData_once[OF t, of "[Query ex_env (GetRecentlyAddedProducts None),
      Load \<lparr> productsRes = Rejected, categoriesRes = Rejected, homeRes = Rejected \<rparr>]" ex_responses]
      t f
    by (simp add: Let_def)
qed

text \<open>
  C4, as amended.  \<^verbatim>\<open>searchProducts\<close> returns the empty array for a query that is
  empty or only white space.  For any other query it returns exactly the active,
  published products whose lowercased name, description or category contains the
  lowercased, trimmed query as a substring, or whose lowercased \<^verbatim>\<open>sub_category\<close>, when
  present, contains it, or one of whose lowercased tags contains it.
\<close>

theorem searchProducts_lowered:
  "returned (searchProducts e query s) =
     (if list_all is_space query then []
      else
        filter
          (\<lambda>p. lowered_contains e (name p) (trim (toLowerCase e query)) \<or>
               lowered_contains e (description p) (trim (toLowerCase e query)) \<or>
               lowered_contains e (category p) (trim (toLowerCase e query)) \<or>
               (\<exists>sc. sub_category p = Some sc \<and>
                     lowered_contains e sc (trim (toLowerCase e query))) \<or>
               (\<exists>ts. tags p = Some ts \<and>
                     (\<exists>tag \<in> set ts. lowered_contains e tag (trim (toLowerCase e query)))))
          (active_published e s))"
proof (cases "list_all is_space query")
  case True
  then have "query = [] \<or> trim query = []"
    by (simp add: trim_empty_iff)
  then show ?thesis
    using True by (simp add: searchProducts_content)
next
  case False
  then have q: "\<not> (query = [] \<or> trim query = [])"
    by (auto simp add: trim_empty_iff)
  let ?t = "trim (toLowerCase e query)"
  have tg: "\<And>p :: product. (case tags p of None \<Rightarrow> False
                  | Some ts \<Rightarrow> list_ex (\<lambda>tag. str_includes (toLowerCase e tag) ?t) ts) =
                 (\<exists>ts. tags p = Some ts \<and> (\<exists>tag \<in> set ts. lowered_contains e tag ?t))"
    by (auto simp add: lowered_contains_def str_includes_sublist list_ex_iff split: option.splits)
  have pred:
      "(str_includes (toLowerCase e (name p)) ?t \<or>
       str_includes (toLowerCase e (description p)) ?t \<or>
       str_includes (toLowerCase e (category p)) ?t \<or>
       (case sub_category p of None \<Rightarrow> False
        | Some sc \<Rightarrow> sc \<noteq> [] \<and> str_includes (toLowerCase e sc) ?t) \<or>
       (case tags p of None \<Rightarrow> False
        | Some ts \<Rightarrow> list_ex (\<lambda>tag. str_includes (toLowerCase e tag) ?t) ts)) =
      (lowered_contains e (name p) ?t \<or>
       lowered_contains e (description p) ?t \<or>
       lowered_contains e (category p) ?t \<or>
       (\<exists>sc. sub_category p = Some sc \<and> lowered_contains e sc ?t) \<or>
       (\<exists>ts. tags p = Some ts \<and> (\<exists>tag \<in> set ts. lowered_contains e tag ?t)))"
    for p :: product
  proof -
    have d: "str_includes (toLowerCase e (description p)) ?t = lowered_contains e (description p) ?t"
      "str_includes (toLowerCase e (category p)) ?t = lowered_contains e (category p) ?t"
      by (simp_all add: lowered_contains_def str_includes_sublist)
    show ?thesis
      using sub_category_disjunct[of e "name p" ?t "sub_category p"]
      unfolding d tg by blast
  qed
  show ?thesis
    using False q by (simp add: searchProducts_content pred)
qed

text \<open>
  C4 as stated fails.  The sign named with the Greek capitals of U+039F U+0394 U+039F
  U+03A3 contains the query U+03A3 itself, so it contains the lowercased query as a
  case-insensitive substring; but the lowercased name ends in the final sigma U+03C2,
  the lowercased query is the small sigma U+03C3, and the search returns nothing.
\<close>

theorem searchProducts_case_insensitive_counterexample:
  "returned (searchProducts ex_env ex_sigma ex_sign_state) \<noteq>
   claimed_search ex_env ex_sigma ex_sign_state"
proof -
  have "name ex_sign = [0x39F, 0x394, 0x39F] @ ex_sigma @ []"
    by (simp add: ex_sign_def ex_sigma_def)
  then have "sublist ex_sigma (name ex_sign)"
    unfolding sublist_def by (intro exI)
  moreover have "toLowerCase ex_env ex_sigma = toLowerCase ex_env [0x3C3]"
    by (simp only: ex_sigma_lower(1,2))
  ultimately have "contains_ci ex_env (name ex_sign) [0x3C3]"
    unfolding contains_ci_def by (intro exI conjI)
  then have "claimed_match ex_env [0x3C3] ex_sign"
    unfolding claimed_match_def by (rule disjI1)
  then have "claimed_search ex_env ex_sigma ex_sign_state = [ex_sign]"
    by (simp only: claimed_search_def ex_sigma_lower ex_sign_active if_False filter.simps if_True)
  then show ?thesis
    by (simp only: ex_sign_search) simp
qed

theorem searchProducts_lowered_witness:
  "returned (searchProducts ex_env (utf16 ''  SHIRT '') ex_state) = [ex_shirt] \<and>
   returned (searchProducts ex_env (utf16 '' '') ex_state) = [] \<and>
   returned (searchProducts ex_env ex_sigma ex_sign_state) = []"
proof -
  have d: "sub_category ex_dress = Some []" "tags ex_dress = Some [utf16 ''summer'']"
    by (simp_all add: ex_dress_def)
  have "returned (searchProducts ex_env (utf16 ''  SHIRT '') ex_state) =
          filter
            (\<lambda>p. lowered_contains ex_env (name p) (utf16 ''shirt'') \<or>
                 lowered_contains ex_env (description p) (utf16 ''shirt'') \<or>
                 lowered_contains ex_env (category p) (utf16 ''shirt'') \<or>
                 (\<exists>sc. sub_category p = Some sc \<and> lowered_contains ex_env sc (utf16 ''shirt'')) \<or>
                 (\<exists>ts. tags p = Some ts \<and>
                    (\<exists>tag \<in> set ts. lowered_contains ex_env tag (utf16 ''shirt''))))
            [ex_shirt, ex_dress]"
    using searchProducts_lowered[of ex_env "utf16 ''  SHIRT ''" ex_state] ex_shirt_search(2)
    by (simp only: ex_shirt_search(1) ex_active if_False)
  then have a: "returned (searchProducts ex_env (utf16 ''  SHIRT '') ex_state) = [ex_shirt]"
    by (simp add: lowered_contains_def ex_shirt_search d flip: str_includes_sublist)
  have b: "returned (searchProducts ex_env (utf16 '' '') ex_state) = []"
    using searchProducts_lowered[of ex_env "utf16 '' ''" ex_state] ex_shirt_search(3)
    by (simp only: if_True)
  have "returned (searchProducts ex_env ex_sigma ex_sign_state) =
          filter
            (\<lambda>p. lowered_contains ex_env (name p) [0x3C3] \<or>
                 lowered_contains ex_env (description p) [0x3C3] \<or>
                 lowered_contains ex_env (category p) [0x3C3] \<or>
                 (\<exists>sc. sub_category p = Some sc \<and> lowered_contains ex_env sc [0x3C3]) \<or>
                 (\<exists>ts. tags p = Some ts \<and>
                    (\<exists>tag \<in> set ts. lowered_contains ex_env tag [0x3C3])))
            [ex_sign]"
    using searchProducts_lowered[of ex_env ex_sigma ex_sign_state] ex_sigma_lower(4)
    by (simp only: ex_sigma_lower(1,3) ex_sign_active if_False)
  then have c: "returned (searchProducts ex_env ex_sigma ex_sign_state) = []"
    by (simp add: lowered_contains_def ex_sign_no_match ex_sign_fields flip: str_includes_sublist)
  from a b c show ?thesis
    by simp
qed

text \<open>
  C5.  \<^verbatim>\<open>getAllCategories\<close> returns exactly the entries of the category catalog whose
  id is the category of at least one active, published product, in catalog order.
\<close>

theorem getAllCategories_exact:
  "fst (getAllCategories e s) =
     filter (\<lambda>cat. \<exists>p \<in> set (active_published e s). category p = cat_id cat) (categoriesData s)"
  by (simp add: getAllCategories_content image_iff eq_commute)

theorem getAllCategories_exact_witness:
  "fst (getAllCategories ex_env ex_state) = [\<lparr> cat_id = (utf16 ''tops''), label = (utf16 ''Tops'') \<rparr>]"
  using getAllCategories_exact[of ex_env ex_state]
  by (simp add: ex_active) (simp add: ex_defs)

text \<open>
  C6.  \<^verbatim>\<open>getFeaturedProducts\<close> returns exactly the active, published products whose
  \<open>featured\<close> field is 1, and each of them is in the result of
  \<^verbatim>\<open>getAllActiveProducts\<close>.
\<close>

theorem getFeaturedProducts_exact:
  "returned (getFeaturedProducts e s) = filter (\<lambda>p. featured p = 1) (active_published e s)
   \<and> set (returned (getFeaturedProducts e s)) \<subseteq> set (returned (getAllActiveProducts e s))"
  by (auto simp add: getFeaturedProducts_content getAllActiveProducts_alloc returned_alloc)

theorem getFeaturedProducts_exact_witness:
  "returned (getFeaturedProducts ex_env ex_state) = [ex_shirt]"
  using getFeaturedProducts_exact[of ex_env ex_state]
  by (simp add: ex_active) (simp add: ex_defs)

text \<open>
  C7, as amended.  For a limit \<open>n\<close> that is not negative, \<^verbatim>\<open>getRecentlyAddedProducts\<close>
  returns \<open>n\<close> products, or all active, published products when there are fewer, so at
  most \<open>n\<close>; for a negative limit it returns all but \<open>-n\<close> of them; with no limit given
  the limit is 6.  For every limit, the products it returns are active, published
  products of the catalog, and together with the omitted ones they are all of them.
  When the \<^verbatim>\<open>added_date\<close> of every active, published product parses, the returned
  products run from the newest to the oldest and no omitted active, published product
  is newer than a returned one.
\<close>

theorem getRecentlyAddedProducts_newest_first:
  "let n = (case limit of None \<Rightarrow> 6 | Some k \<Rightarrow> k);
       r = returned (getRecentlyAddedProducts e limit s);
       a = active_published e s
   in length r = (if 0 \<le> n then min (nat n) (length a) else length a - nat (- n)) \<and>
      (0 \<le> n \<longrightarrow> int (length r) \<le> n) \<and>
      (\<forall>p \<in> set r. p \<in> set (deref s (productsData s)) \<and> active p = 1 \<and> isProductPublished e p) \<and>
      (\<exists>omitted. mset a = mset r + mset omitted \<and>
         ((\<forall>p \<in> set a. parseDate e (added_date p) \<noteq> None) \<longrightarrow>
            newest_first e r \<and>
            (\<forall>q \<in> set omitted. \<forall>p \<in> set r. date_of e q \<le> date_of e p)))"
proof -
  define n where "n = (case limit of None \<Rightarrow> 6 | Some k \<Rightarrow> k)"
  define a where "a = active_published e s"
  define srt where "srt = js_sort (byAddedDate e) a"
  define k where "k = rel_index n (length srt)"
  define r where "r = returned (getRecentlyAddedProducts e limit s)"
  have r: "r = take k srt"
    by (simp add: r_def k_def srt_def a_def n_def getRecentlyAddedProducts_content
        js_slice_from_start_take)
  have "r = js_slice srt 0 n"
    by (simp add: r_def srt_def a_def n_def getRecentlyAddedProducts_content)
  then have len: "length r = (if 0 \<le> n then min (nat n) (length a) else length a - nat (- n))"
    by (simp only: length_js_slice_from_start srt_def length_js_sort)
  then have most: "0 \<le> n \<longrightarrow> int (length r) \<le> n"
    by auto
  have "set r \<subseteq> set a"
    using set_take_subset[of k srt] by (simp add: r srt_def set_js_sort)
  then have act: "\<forall>p \<in> set r. p \<in> set (deref s (productsData s)) \<and> active p = 1 \<and> isProductPublished e p"
    by (auto simp add: a_def active_published_def)
  have split: "mset a = mset r + mset (drop k srt)"
    by (simp add: r srt_def mset_js_sort flip: mset_append)
  have ord: "newest_first e r \<and> (\<forall>q \<in> set (drop k srt). \<forall>p \<in> set r. date_of e q \<le> date_of e p)"
    if valid: "\<forall>p \<in> set a. parseDate e (added_date p) \<noteq> None"
  proof -
    from valid have "newest_first e srt"
      unfolding srt_def by (rule newest_first_js_sort)
    then have whole: "newest_first e (r @ drop k srt)"
      by (simp add: r)
    then have "newest_first e r"
      by (simp add: newest_first_def sorted_wrt_append)
    moreover from whole have "\<forall>q \<in> set (drop k srt). \<forall>p \<in> set r. date_of e q \<le> date_of e p"
      by (rule newest_first_split)
    ultimately show ?thesis
      by blast
  qed
  from split ord have "\<exists>omitted. mset a = mset r + mset omitted \<and>
         ((\<forall>p \<in> set a. parseDate e (added_date p) \<noteq> None) \<longrightarrow>
            newest_first e r \<and>
            (\<forall>q \<in> set omitted. \<forall>p \<in> set r. date_of e q \<le> date_of e p))"
    by blast
  with len most act show ?thesis
    unfolding Let_def n_def[symmetric] r_def[symmetric] a_def[symmetric] by blast
qed

text \<open>
  C7 as stated fails for a negative limit: with the limit -1 and two active, published
  products the call returns one product, which is more than -1.
\<close>

theorem getRecentlyAddedProducts_negative_limit_counterexample:
  "returned (getRecentlyAddedProducts ex_env (Some (- 1)) ex_state) = [ex_dress] \<and>
   \<not> int (length (returned (getRecentlyAddedProducts ex_env (Some (- 1)) ex_state))) \<le> - 1"
  by (simp add: getRecentlyAddedProducts_content ex_active ex_sorted js_slice_def rel_index_def)

theorem getRecentlyAddedProducts_newest_first_witness:
  "list_all (\<lambda>p. parseDate ex_env (added_date p) \<noteq> None)
     (active_published ex_env ex_recent_state) \<and>
   returned (getRecentlyAddedProducts ex_env (Some 2) ex_recent_state) = [ex_coat, ex_dress] \<and>
   length (returned (getRecentlyAddedProducts ex_env (Some 2) ex_recent_state)) = 2 \<and>
   newest_first ex_env (returned (getRecentlyAddedProducts ex_env (Some 2) ex_recent_state)) \<and>
   date_of ex_env ex_shirt \<le> date_of ex_env ex_dress \<and>
   returned (getRecentlyAddedProducts ex_env (Some (- 1)) ex_recent_state) = [ex_coat, ex_dress]"
proof -
  have v: "\<forall>p \<in> set (active_published ex_env ex_recent_state). parseDate ex_env (added_date p) \<noteq> None"
    by (simp add: ex_recent_active ex_dates)
  have r: "returned (getRecentlyAddedProducts ex_env (Some 2) ex_recent_state) = [ex_coat, ex_dress]"
    "returned (getRecentlyAddedProducts ex_env (Some (- 1)) ex_recent_state) = [ex_coat, ex_dress]"
    by (simp_all add: getRecentlyAddedProducts_content ex_recent_active ex_sorted js_slice_def
        rel_index_def)
  have d: "date_of ex_env ex_shirt \<le> date_of ex_env ex_dress"
    by (simp add: date_of_def ex_dates)
  from v getRecentlyAddedProducts_newest_first[of "Some 2" ex_env ex_recent_state]
  have "length (returned (getRecentlyAddedProducts ex_env (Some 2) ex_recent_state)) = 2 \<and>
      newest_first ex_env (returned (getRecentlyAddedProducts ex_env (Some 2) ex_recent_state))"
    by (auto simp add: Let_def ex_recent_active)
  with v r d show ?thesis
    by (simp add: list_all_iff)
qed

text \<open>
  C8.  After any sequence of queries, the cached catalog (the variable and the contents
  of its array), the categories and the home data are as before, and a later call of
  the public interface answers as it would have without them, in the same environment.
  The queries are the nine reading operations of the claim and \<^verbatim>\<open>getProductById\<close>,
  \<^verbatim>\<open>getCategoryConfig\<close> and \<^verbatim>\<open>getHomeData\<close>.
\<close>

theorem queries_leave_cache:
  assumes "wf_state s" and "call_ok c s"
  shows "let s' = exec (map (\<lambda>(e, q). Query e q) qs) s
         in productsData s' = productsData s \<and>
            deref s' (productsData s') = deref s (productsData s) \<and>
            categoriesData s' = categoriesData s \<and>
            homeData s' = homeData s \<and>
            fst (run_call c s') = fst (run_call c s)"
proof -
  define s' where "s' = exec (map (\<lambda>(e, q). Query e q) qs) s"
  have ext: "extends s s'"
    unfolding s'_def by (rule extends_exec_queries)
  with assms have "deref s' (productsData s) = deref s (productsData s)"
    by (simp add: extends_deref wf_state_def)
  moreover from ext assms have "fst (run_call c s') = fst (run_call c s)"
    by (rule run_call_extends_answer)
  ultimately show ?thesis
    using ext by (simp add: Let_def extends_def flip: s'_def)
qed

theorem queries_leave_cache_witness:
  "wf_state ex_state \<and> call_ok (Query ex_env (GetUniqueTags 0)) ex_state \<and>
   (let s' = exec [Query ex_env (GetRecentlyAddedProducts (Some 1)),
                   Query ex_env (GetRelatedProducts (utf16 ''p1'') (utf16 ''tops'') None)] ex_state
    in deref s' (productsData s') = [ex_shirt, ex_scarf, ex_boots, ex_dress, ex_hat] \<and>
       categoriesData s' = ex_categories \<and>
       fst (run_call (Query ex_env (GetUniqueTags 0)) s') = Strings [(utf16 ''linen''), (utf16 ''summer''), (utf16 ''winter'')])"
proof -
  have w: "wf_state ex_state" "call_ok (Query ex_env (GetUniqueTags 0)) ex_state"
    by (simp_all add: wf_state_def ex_state_def)
  have a: "fst (run_call (Query ex_env (GetUniqueTags 0)) ex_state) =
      Strings [(utf16 ''linen''), (utf16 ''summer''), (utf16 ''winter'')]"
    by code_simp
  have d: "deref ex_state (productsData ex_state) = [ex_shirt, ex_scarf, ex_boots, ex_dress, ex_hat]"
    "categoriesData ex_state = ex_categories"
    by (simp_all add: deref_def ex_state_def)
  have m: "map (\<lambda>(e, q). Query e q) [(ex_env, GetRecentlyAddedProducts (Some 1)),
      (ex_env, GetRelatedProducts (utf16 ''p1'') (utf16 ''tops'') None)] =
      [Query ex_env (GetRecentlyAddedProducts (Some 1)),
       Query ex_env (GetRelatedProducts (utf16 ''p1'') (utf16 ''tops'') None)]"
    by simp
  note th = queries_leave_cache[OF w, of "[(ex_env, GetRecentlyAddedProducts (Some 1)),
      (ex_env, GetRelatedProducts (utf16 ''p1'') (utf16 ''tops'') None)]", unfolded Let_def m]
  show ?thesis
    unfolding Let_def using th w a d by metis
qed

text \<open>
  C9.  \<^verbatim>\<open>getProductById\<close> returns \<^verbatim>\<open>null\<close> exactly when no product of the catalog has
  the id, or the first product with the id is inactive or not yet published; a product
  it returns is an active, published product of the catalog with that id.
\<close>

theorem getProductById_gated:
  "(getProductById e i s = None \<longleftrightarrow>
      (\<forall>p \<in> set (deref s (productsData s)). product_id p \<noteq> i) \<or>
      (\<exists>p. find (\<lambda>p. product_id p = i) (deref s (productsData s)) = Some p \<and>
           (active p \<noteq> 1 \<or> \<not> isProductPublished e p)))
   \<and> (\<forall>p. getProductById e i s = Some p \<longrightarrow>
          p \<in> set (deref s (productsData s)) \<and> product_id p = i \<and>
          active p = 1 \<and> isProductPublished e p)"
proof (cases "find (\<lambda>p. product_id p = i) (deref s (productsData s))")
  case None
  moreover from None have "\<forall>p \<in> set (deref s (productsData s)). product_id p \<noteq> i"
    by (simp add: find_None_iff)
  ultimately show ?thesis
    by (simp add: getProductById_def)
next
  case (Some q)
  then have "q \<in> set (deref s (productsData s))" "product_id q = i"
    by (auto simp add: find_Some_iff)
  with Some show ?thesis
    by (auto simp add: getProductById_def)
qed

theorem getProductById_gated_witness:
  "getProductById ex_env (utf16 ''p2'') ex_state = None \<and>
   find (\<lambda>p. product_id p = (utf16 ''p2'')) (deref ex_state (productsData ex_state)) = Some ex_scarf \<and>
   \<not> isProductPublished ex_env ex_scarf \<and>
   getProductById ex_env (utf16 ''p4'') ex_state = Some ex_dress \<and>
   ex_dress \<in> set (deref ex_state (productsData ex_state)) \<and>
   product_id ex_dress = (utf16 ''p4'') \<and> active ex_dress = 1 \<and> isProductPublished ex_env ex_dress"
proof -
  have f: "find (\<lambda>p. product_id p = (utf16 ''p2'')) (deref ex_state (productsData ex_state)) = Some ex_scarf"
    by (simp add: deref_def ex_defs)
  have u: "\<not> isProductPublished ex_env ex_scarf"
    by (simp add: isProductPublished_def new_Date_def date_ge_def getCurrentIST_def ex_defs)
  have g: "getProductById ex_env (utf16 ''p4'') ex_state = Some ex_dress"
    by (simp add: getProductById_def deref_def isProductPublished_def new_Date_def date_ge_def getCurrentIST_def ex_defs)
  from f u have "getProductById ex_env (utf16 ''p2'') ex_state = None"
    using getProductById_gated[of ex_env "(utf16 ''p2'')" ex_state] by blast
  moreover from g have "ex_dress \<in> set (deref ex_state (productsData ex_state)) \<and>
    product_id ex_dress = (utf16 ''p4'') \<and> active ex_dress = 1 \<and> isProductPublished ex_env ex_dress"
    using getProductById_gated[of ex_env "(utf16 ''p4'')" ex_state] by blast
  ultimately show ?thesis
    using f u g by blast
qed

text \<open>
  C10.  In \<^verbatim>\<open>getProductsByCategory\<close> a limit of 0 behaves like the default
  \<^verbatim>\<open>null\<close>: the result is all active, published products of the category.  For a
  positive limit \<open>n\<close> the result is the first \<open>n\<close> of them in catalog order, or all of
  them when there are fewer.
\<close>

theorem getProductsByCategory_limit:
  "returned (getProductsByCategory e c None s) = filter (\<lambda>p. category p = c) (active_published e s)
   \<and> returned (getProductsByCategory e c (Some 0) s) = returned (getProductsByCategory e c None s)
   \<and> (0 < n \<longrightarrow> returned (getProductsByCategory e c (Some n) s) =
                  take (nat n) (filter (\<lambda>p. category p = c) (active_published e s)))"
  by (simp add: getProductsByCategory_content js_slice_from_start)

theorem getProductsByCategory_limit_witness:
  "(0::int) < 1 \<and>
   returned (getProductsByCategory ex_env (utf16 ''tops'') (Some 1) ex_state) = [ex_shirt] \<and>
   returned (getProductsByCategory ex_env (utf16 ''tops'') (Some 0) ex_state) = [ex_shirt, ex_dress]"
  using getProductsByCategory_limit[of ex_env "(utf16 ''tops'')" ex_state 1]
  by (simp add: ex_active) (simp add: ex_defs)

end
